theory Spec2Isabelle
  imports Complex_Main
begin

section \<open>The dialectic vector engine (MGDMoteur)\<close>

text \<open>
  The engine works on triples of Python integers \<open>(t, a, s)\<close>: thesis, antithesis and
  synthesis weight. Python integers are unbounded, so a component is an \<open>int\<close>.
  The repository holds two versions of the same class, \<open>mgd_engine.py\<close> (v1.1) and
  \<open>mgd_engine_v1.2.py\<close> (v1.2). A definition without suffix embeds v1.2; the
  definitions of v1.1 that differ from it carry the suffix \<open>_v1\<close>.
\<close>

type_synonym vector = "int \<times> int \<times> int"

subsection \<open>The seeds\<close>

definition M_THESE :: vector where
  "M_THESE = (1, 0, 0)"

definition M_ANTITHESE :: vector where
  "M_ANTITHESE = (0, 1, 0)"

definition M_SYNTHESE :: vector where
  "M_SYNTHESE = (0, 0, 1)"

subsection \<open>Vector algebra\<close>

text \<open>\<^verbatim>\<open>return s >= (t + a)\<close>\<close>

definition verifier_axiome :: "int \<Rightarrow> int \<Rightarrow> int \<Rightarrow> bool" where
  "verifier_axiome t a s = (s \<ge> t + a)"

text \<open>\<^verbatim>\<open>return self.verifier_axiome(*v)\<close>\<close>

definition est_equilibre :: "vector \<Rightarrow> bool" where
  "est_equilibre v = (case v of (t, a, s) \<Rightarrow> verifier_axiome t a s)"

text \<open>
  \<^verbatim>\<open>return tuple(x + y for x, y in zip(v1, v2))\<close>: on two triples, the sum component by
  component.
\<close>

definition hybridation :: "vector \<Rightarrow> vector \<Rightarrow> vector" where
  "hybridation v1 v2 =
     (case v1 of (t1, a1, s1) \<Rightarrow> case v2 of (t2, a2, s2) \<Rightarrow> (t1 + t2, a1 + a2, s1 + s2))"

text \<open>
  v1.2:
  \<^verbatim>\<open>
  t, a, s = v
  s_equilibre = t + a
  if s >= s_equilibre:
      return v
  return (t, a, s_equilibre)
  \<close>
\<close>

definition resolution :: "vector \<Rightarrow> vector" where
  "resolution v =
     (case v of (t, a, s) \<Rightarrow>
        let s_equilibre = t + a in
        if s \<ge> s_equilibre then v else (t, a, s_equilibre))"

text \<open>
  v1.1:
  \<^verbatim>\<open>
  t, a, s = v
  s_min = t + a
  return (t, a, max(s, s_min))
  \<close>
\<close>

definition resolution_v1 :: "vector \<Rightarrow> vector" where
  "resolution_v1 v = (case v of (t, a, s) \<Rightarrow> let s_min = t + a in (t, a, max s s_min))"

subsection \<open>Sets of vectors\<close>

text \<open>
  A Python \<open>set\<close> of vectors is modelled by the list of its members without repetition,
  in the order in which they were added. \<open>list(etats)\<close> is then the list itself: Python
  leaves the order of iteration over a set open, the model fixes one. \<open>set_add\<close> is
  \<^verbatim>\<open>nouveaux.add(stable)\<close> and \<open>set_update\<close> is \<^verbatim>\<open>etats.update(nouveaux)\<close>: a member already
  present is not added again.
\<close>

definition set_add :: "vector \<Rightarrow> vector list \<Rightarrow> vector list" where
  "set_add v vs = (if v \<in> set vs then vs else vs @ [v])"

fun set_update :: "vector list \<Rightarrow> vector list \<Rightarrow> vector list" where
  "set_update etats [] = etats"
| "set_update etats (v # vs) = set_update (set_add v etats) vs"

subsection \<open>The closure, v1.2\<close>

text \<open>
  The inner loop, for one \<open>s1\<close>, over the slice \<open>liste_etats[i:]\<close>:
  \<^verbatim>\<open>
  for s2 in liste_etats[i:]:
      hybrid = self.hybridation(s1, s2)
      stable = self.resolution(hybrid)
      if stable not in etats:
          nouveaux.add(stable)
  \<close>
\<close>

fun boucle_s2 :: "vector list \<Rightarrow> vector \<Rightarrow> vector list \<Rightarrow> vector list \<Rightarrow> vector list" where
  "boucle_s2 etats s1 [] nouveaux = nouveaux"
| "boucle_s2 etats s1 (s2 # reste) nouveaux =
     (let hybrid = hybridation s1 s2;
          stable = resolution hybrid
      in boucle_s2 etats s1 reste
           (if stable \<notin> set etats then set_add stable nouveaux else nouveaux))"

text \<open>
  \<^verbatim>\<open>for i, s1 in enumerate(liste_etats):\<close> The second argument is what is left of
  \<open>liste_etats\<close>, from index \<open>i\<close> on: that is the slice \<open>liste_etats[i:]\<close> of the inner
  loop, and its head is \<open>s1\<close>.
\<close>

fun boucle_s1 :: "vector list \<Rightarrow> vector list \<Rightarrow> vector list \<Rightarrow> vector list" where
  "boucle_s1 etats [] nouveaux = nouveaux"
| "boucle_s1 etats (s1 # reste) nouveaux =
     boucle_s1 etats reste (boucle_s2 etats s1 (s1 # reste) nouveaux)"

text \<open>
  \<^verbatim>\<open>
  for iteration in range(max_iterations):
      nouveaux = set()
      liste_etats = list(etats)
      ... the two loops above ...
      if not nouveaux:
          break
      etats.update(nouveaux)
      historique.append(len(nouveaux))
  return historique, etats
  \<close>
  The first argument counts the iterations that \<open>range\<close> still has to give.
\<close>

fun boucle :: "nat \<Rightarrow> vector list \<Rightarrow> int list \<Rightarrow> int list \<times> vector list" where
  "boucle 0 etats historique = (historique, etats)"
| "boucle (Suc n) etats historique =
     (let nouveaux = boucle_s1 etats etats []
      in if nouveaux = [] then (historique, etats)
         else boucle n (set_update etats nouveaux) (historique @ [int (length nouveaux)]))"

text \<open>
  \<open>range(max_iterations)\<close> is empty when \<open>max_iterations\<close> is negative or zero, and has
  \<open>max_iterations\<close> elements otherwise: \<open>nat max_iterations\<close> of them. \<open>verbose\<close> only
  prints, and is left out.
\<close>

definition generer_hybridations :: "int \<Rightarrow> int list \<times> vector list" where
  "generer_hybridations max_iterations =
     boucle (nat max_iterations) [M_THESE, M_ANTITHESE, M_SYNTHESE] []"

subsection \<open>The closure, v1.1\<close>

text \<open>
  The two inner loops of v1.1 are those of v1.2 with other names for the variables, and
  they call the \<open>resolution\<close> of v1.1:
  \<^verbatim>\<open>
  for i, s1 in enumerate(state_list):
      for s2 in state_list[i:]:
          hybrid = self.hybridation(s1, s2)
          resolved = self.resolution(hybrid)
          if resolved not in all_states:
              new_states.add(resolved)
  \<close>
\<close>

fun boucle_s2_v1 :: "vector list \<Rightarrow> vector \<Rightarrow> vector list \<Rightarrow> vector list \<Rightarrow> vector list" where
  "boucle_s2_v1 all_states s1 [] new_states = new_states"
| "boucle_s2_v1 all_states s1 (s2 # reste) new_states =
     (let hybrid = hybridation s1 s2;
          resolved = resolution_v1 hybrid
      in boucle_s2_v1 all_states s1 reste
           (if resolved \<notin> set all_states then set_add resolved new_states else new_states))"

fun boucle_s1_v1 :: "vector list \<Rightarrow> vector list \<Rightarrow> vector list \<Rightarrow> vector list" where
  "boucle_s1_v1 all_states [] new_states = new_states"
| "boucle_s1_v1 all_states (s1 # reste) new_states =
     boucle_s1_v1 all_states reste (boucle_s2_v1 all_states s1 (s1 # reste) new_states)"

text \<open>
  The outer loop of v1.1 records the iteration first and tests for the fixed point after:
  \<^verbatim>\<open>
  for iteration in range(max_iterations):
      new_states = set()
      state_list = list(all_states)
      ... the two loops above ...
      all_states.update(new_states)
      history.append(len(new_states))
      if len(new_states) == 0:
          break
  return history, all_states
  \<close>
\<close>

fun boucle_v1 :: "nat \<Rightarrow> vector list \<Rightarrow> int list \<Rightarrow> int list \<times> vector list" where
  "boucle_v1 0 all_states history = (history, all_states)"
| "boucle_v1 (Suc n) all_states history =
     (let new_states = boucle_s1_v1 all_states all_states [];
          all_states' = set_update all_states new_states;
          history' = history @ [int (length new_states)]
      in if length new_states = 0 then (history', all_states')
         else boucle_v1 n all_states' history')"

definition generer_hybridations_v1 :: "int \<Rightarrow> int list \<times> vector list" where
  "generer_hybridations_v1 max_iterations =
     boucle_v1 (nat max_iterations) [M_THESE, M_ANTITHESE, M_SYNTHESE] []"

subsection \<open>The cube and the anchoring statistic, v1.2\<close>

text \<open>
  \<^verbatim>\<open>return list(product(range(3), repeat=3))\<close>: the triples over \<open>0, 1, 2\<close> in
  lexicographic order, the first component varying slowest.
\<close>

definition generer_cube_27 :: "vector list" where
  "generer_cube_27 =
     [(x, y, z). x \<leftarrow> map int [0..<3], y \<leftarrow> map int [0..<3], z \<leftarrow> map int [0..<3]]"

text \<open>\<^verbatim>\<open>return v1[1] == v2[0]\<close>\<close>

definition ancrage_valide :: "vector \<Rightarrow> vector \<Rightarrow> bool" where
  "ancrage_valide v1 v2 = (fst (snd v1) = fst v2)"

text \<open>
  The report is a dictionary with four fixed keys. The percentage is a Python float; the
  model computes it in the reals, without the rounding error of a double (which is far
  smaller than the distance of the value from a rounding boundary of \<open>round(ratio, 2)\<close>).
  \<open>arrondi2\<close> is \<^verbatim>\<open>round(ratio, 2)\<close>: the nearest multiple of \<open>1/100\<close>. Python breaks a tie
  towards the even neighbour and \<open>round\<close> of HOL upwards; the two agree off the ties.
\<close>

record rapport =
  nombre_points :: int
  total_paires :: int
  ancrages_valides :: int
  ratio_percentage :: real

definition arrondi2 :: "real \<Rightarrow> real" where
  "arrondi2 x = real_of_int (round (x * 100)) / 100"

text \<open>
  \<^verbatim>\<open>
  cube = self.generer_cube_27()
  total_paires = len(cube) ** 2
  ancrages_valides = sum(
      1 for p1 in cube for p2 in cube if self.ancrage_valide(p1, p2)
  )
  ratio = (ancrages_valides / total_paires) * 100
  return {
      "nombre_points": len(cube),
      "total_paires": total_paires,
      "ancrages_valides": ancrages_valides,
      "ratio_percentage": round(ratio, 2)
  }
  \<close>
  \<open>total_paires\<close> is \<open>729\<close> here, so the division does not raise.
\<close>

definition analyser_cube_27 :: rapport where
  "analyser_cube_27 =
     (let cube = generer_cube_27;
          total_paires = int (length cube) ^ 2;
          ancrages_valides = sum_list [1. p1 \<leftarrow> cube, p2 \<leftarrow> cube, ancrage_valide p1 p2];
          ratio = (real_of_int ancrages_valides / real_of_int total_paires) * 100
      in \<lparr> nombre_points = int (length cube),
           total_paires = total_paires,
           ancrages_valides = ancrages_valides,
           ratio_percentage = arrondi2 ratio \<rparr>)"

subsection \<open>The engine instance\<close>

text \<open>
  \<open>__init__\<close> stores the three seeds in attributes of the instance,
  \<^verbatim>\<open>self.M_THESE = (1, 0, 0)\<close> and so on, and \<open>generer_hybridations\<close> reads them back from
  the instance: \<^verbatim>\<open>{self.M_THESE, self.M_ANTITHESE, self.M_SYNTHESE}\<close>. The attributes are
  public, and a caller can assign other vectors to them before the call. \<open>moteur\<close> is the
  instance, \<open>moteur_init\<close> the one that \<open>__init__\<close> builds, and \<open>etats_de_base\<close> the set
  literal, in which a repeated member counts once. The two functions \<open>_self\<close> are
  \<open>generer_hybridations\<close> of v1.2 and of v1.1 on any instance; on \<open>moteur_init\<close> they are
  the functions above.
\<close>

record moteur =
  self_M_THESE :: vector
  self_M_ANTITHESE :: vector
  self_M_SYNTHESE :: vector

definition moteur_init :: moteur where
  "moteur_init =
     \<lparr> self_M_THESE = M_THESE, self_M_ANTITHESE = M_ANTITHESE, self_M_SYNTHESE = M_SYNTHESE \<rparr>"

definition etats_de_base :: "moteur \<Rightarrow> vector list" where
  "etats_de_base self =
     set_update [] [self_M_THESE self, self_M_ANTITHESE self, self_M_SYNTHESE self]"

definition generer_hybridations_self :: "moteur \<Rightarrow> int \<Rightarrow> int list \<times> vector list" where
  "generer_hybridations_self self max_iterations =
     boucle (nat max_iterations) (etats_de_base self) []"

definition generer_hybridations_v1_self :: "moteur \<Rightarrow> int \<Rightarrow> int list \<times> vector list" where
  "generer_hybridations_v1_self self max_iterations =
     boucle_v1 (nat max_iterations) (etats_de_base self) []"

subsection \<open>Auxiliary definitions for the proofs\<close>

text \<open>
  The sum of the three components of a vector. It is no part of the program: the proof
  that every iteration of the closure finds a new vector uses it.
\<close>

definition poids :: "vector \<Rightarrow> int" where
  "poids v = (case v of (t, a, s) \<Rightarrow> t + a + s)"

text \<open>
  One pass of the body of the outer loop, read off \<open>boucle\<close>: \<open>nouveaux_iteration\<close> is
  the set \<open>nouveaux\<close> that the two inner loops build from \<open>etats\<close>, and \<open>iteration\<close> is
  \<open>etats\<close> after \<^verbatim>\<open>etats.update(nouveaux)\<close>. \<open>(iteration ^^ i) etats\<close> is then the state
  set after \<open>i\<close> passes. They serve to state what the history records.
\<close>

definition nouveaux_iteration :: "vector list \<Rightarrow> vector list" where
  "nouveaux_iteration etats = boucle_s1 etats etats []"

definition iteration :: "vector list \<Rightarrow> vector list" where
  "iteration etats = set_update etats (nouveaux_iteration etats)"

section \<open>Properties of the vector algebra\<close>

text \<open>
  C4. The resolution operator is idempotent: resolving an already resolved triple changes
  nothing, in v1.2 and in v1.1.
\<close>

theorem resolution_idempotent:
  "resolution (resolution v) = resolution v \<and> resolution_v1 (resolution_v1 v) = resolution_v1 v"
  by (cases v) (simp add: resolution_def resolution_v1_def Let_def)

text \<open>
  C5. The components of a resolved triple always pass the balance check
  \<open>verifier_axiome\<close>.
\<close>

theorem resolution_equilibre:
  "case resolution v of (t, a, s) \<Rightarrow> verifier_axiome t a s"
  by (cases v) (simp add: resolution_def verifier_axiome_def Let_def)

text \<open>
  C6. Resolution keeps the first two components of \<open>(t, a, s)\<close> and never lowers the
  third, in v1.2 and in v1.1.
\<close>

theorem resolution_frame:
  "fst (resolution (t, a, s)) = t \<and> fst (snd (resolution (t, a, s))) = a \<and>
   snd (snd (resolution (t, a, s))) \<ge> s \<and>
   fst (resolution_v1 (t, a, s)) = t \<and> fst (snd (resolution_v1 (t, a, s))) = a \<and>
   snd (snd (resolution_v1 (t, a, s))) \<ge> s"
  by (simp add: resolution_def resolution_v1_def Let_def)

text \<open>
  C7 as stated: resolving the hybrid of the thesis seed and the antithesis seed gives
  \<open>(1, 1, 1)\<close>. The code does not: the hybrid is \<open>(1, 1, 0)\<close>, its balance threshold is
  \<open>t + a = 2\<close>, and the third component is raised to that threshold.
\<close>

theorem resolution_hybridation_seeds_counterexample:
  "resolution (hybridation M_THESE M_ANTITHESE) \<noteq> (1, 1, 1)"
  by (simp add: hybridation_def resolution_def M_THESE_def M_ANTITHESE_def Let_def)

text \<open>
  C7, amended. The hybrid of the thesis seed \<open>(1, 0, 0)\<close> and the antithesis seed
  \<open>(0, 1, 0)\<close> is \<open>(1, 1, 0)\<close>, and its resolution is \<open>(1, 1, 2)\<close>, in v1.2 and in v1.1.
\<close>

theorem resolution_hybridation_seeds:
  "hybridation M_THESE M_ANTITHESE = (1, 1, 0) \<and>
   resolution (hybridation M_THESE M_ANTITHESE) = (1, 1, 2) \<and>
   resolution_v1 (hybridation M_THESE M_ANTITHESE) = (1, 1, 2)"
  by (simp add: hybridation_def resolution_def resolution_v1_def M_THESE_def M_ANTITHESE_def
      Let_def)

text \<open>
  C9. The resolution of v1.1, which always rebuilds the triple with \<open>max\<close>, and the
  resolution of v1.2, which returns its argument when it is balanced, compute the same
  function.
\<close>

theorem resolution_v1_eq_resolution:
  "resolution_v1 (t, a, s) = resolution (t, a, s)"
  by (simp add: resolution_def resolution_v1_def Let_def max_def)

section \<open>Lemmas on the sets and the loops\<close>

subsection \<open>The list model of a set\<close>

lemma set_set_add: "set (set_add v vs) = insert v (set vs)"
  by (auto simp: set_add_def)

lemma set_set_update: "set (set_update etats vs) = set etats \<union> set vs"
  by (induction vs arbitrary: etats) (auto simp: set_set_add)

lemma distinct_set_add: "distinct vs \<Longrightarrow> distinct (set_add v vs)"
  by (simp add: set_add_def)

lemma distinct_set_update: "distinct etats \<Longrightarrow> distinct (set_update etats vs)"
  by (induction vs arbitrary: etats) (auto simp: distinct_set_add)

lemma set_boucle_s2:
  "set (boucle_s2 etats s1 l nouveaux) =
   set nouveaux \<union> ((\<lambda>s2. resolution (hybridation s1 s2)) ` set l - set etats)"
  by (induction l arbitrary: nouveaux) (auto simp: Let_def set_set_add)

lemma distinct_boucle_s2: "distinct nouveaux \<Longrightarrow> distinct (boucle_s2 etats s1 l nouveaux)"
  by (induction l arbitrary: nouveaux) (auto simp: Let_def distinct_set_add)

lemma set_boucle_s1:
  "set (boucle_s1 etats l nouveaux) =
   set nouveaux \<union>
   ((\<Union>i<length l. (\<lambda>s2. resolution (hybridation (l ! i) s2)) ` set (drop i l)) - set etats)"
proof (induction l arbitrary: nouveaux)
  case Nil
  then show ?case by simp
next
  case (Cons s1 reste)
  have split: "{..<Suc (length reste)} = insert 0 (Suc ` {..<length reste})"
    by (auto simp: lessThan_Suc_eq_insert_0)
  show ?case
    by (simp only: boucle_s1.simps Cons.IH set_boucle_s2 length_Cons split)
       (auto simp del: boucle_s2.simps)
qed

lemma distinct_boucle_s1: "distinct nouveaux \<Longrightarrow> distinct (boucle_s1 etats l nouveaux)"
  by (induction l arbitrary: nouveaux) (auto simp: distinct_boucle_s2 simp del: boucle_s2.simps)

lemma boucle_s1_subset:
  "set (boucle_s1 etats l nouveaux) \<subseteq> set nouveaux \<union> (range resolution - set etats)"
  by (auto simp: set_boucle_s1)

lemma boucle_s1_self_pair:
  assumes "x \<in> set l" and "resolution (hybridation x x) \<notin> set etats"
  shows "resolution (hybridation x x) \<in> set (boucle_s1 etats l nouveaux)"
proof -
  from assms(1) obtain i where i: "i < length l" and x: "l ! i = x"
    by (auto simp: in_set_conv_nth)
  have "drop i l = x # drop (Suc i) l"
    using i x Cons_nth_drop_Suc[of i l] by simp
  then have "x \<in> set (drop i l)"
    by simp
  then have "resolution (hybridation x x) \<in>
      (\<Union>i<length l. (\<lambda>s2. resolution (hybridation (l ! i) s2)) ` set (drop i l))"
    using i x by blast
  with assms(2) show ?thesis
    by (simp add: set_boucle_s1)
qed

lemma poids_self_pair: "poids (resolution (hybridation v v)) \<ge> 2 * poids v"
  by (cases v) (simp add: poids_def resolution_def hybridation_def Let_def)

lemma list_has_max: "l \<noteq> [] \<Longrightarrow> \<exists>m\<in>set l. \<forall>v\<in>set l. f v \<le> (f m :: int)"
proof (induction l)
  case Nil
  then show ?case by simp
next
  case (Cons x xs)
  show ?case
  proof (cases "xs = []")
    case True
    then show ?thesis by simp
  next
    case False
    with Cons.IH obtain m where m: "m \<in> set xs" "\<forall>v\<in>set xs. f v \<le> f m"
      by blast
    show ?thesis
    proof (cases "f x \<le> f m")
      case True
      with m show ?thesis by auto
    next
      case False
      with m show ?thesis by (intro bexI[of _ x]) force+
    qed
  qed
qed

lemma boucle_s1_grows:
  assumes "\<exists>v\<in>set etats. 0 < poids v"
  shows "boucle_s1 etats etats [] \<noteq> []"
proof -
  from assms have "etats \<noteq> []" by auto
  then obtain m where m: "m \<in> set etats" "\<forall>v\<in>set etats. poids v \<le> poids m"
    using list_has_max[of etats poids] by blast
  from assms m have "0 < poids m" by force
  then have "poids m < poids (resolution (hybridation m m))"
    using poids_self_pair[of m] by linarith
  with m(2) have "resolution (hybridation m m) \<notin> set etats"
    by force
  with m(1) have "resolution (hybridation m m) \<in> set (boucle_s1 etats etats [])"
    by (rule boucle_s1_self_pair)
  then show ?thesis by auto
qed

lemma boucle_etats:
  "boucle n etats historique = (h', e') \<Longrightarrow>
   set etats \<subseteq> set e' \<and> set e' \<subseteq> set etats \<union> range resolution"
proof (induction n arbitrary: etats historique)
  case 0
  then show ?case by auto
next
  case (Suc n)
  let ?nv = "boucle_s1 etats etats []"
  show ?case
  proof (cases "?nv = []")
    case True
    with Suc.prems show ?thesis by auto
  next
    case False
    with Suc.prems have "boucle n (set_update etats ?nv) (historique @ [int (length ?nv)]) = (h', e')"
      by (simp add: Let_def)
    from Suc.IH[OF this] boucle_s1_subset[of etats etats "[]"] show ?thesis
      by (auto simp: set_set_update)
  qed
qed


lemma est_equilibre_resolution: "est_equilibre (resolution v)"
  by (cases v) (simp add: est_equilibre_def verifier_axiome_def resolution_def Let_def)

lemma range_resolution_equilibre: "v \<in> range resolution \<Longrightarrow> est_equilibre v"
  by (auto simp: est_equilibre_resolution)

lemma resolution_v1_conv: "resolution_v1 v = resolution v"
  by (cases v) (simp add: resolution_def resolution_v1_def Let_def max_def)

lemma boucle_s2_v1_conv: "boucle_s2_v1 etats s1 l nouveaux = boucle_s2 etats s1 l nouveaux"
  by (induction l arbitrary: nouveaux) (simp_all add: resolution_v1_conv Let_def)

lemma boucle_s1_v1_conv: "boucle_s1_v1 etats l nouveaux = boucle_s1 etats l nouveaux"
  by (induction l arbitrary: nouveaux) (simp_all add: boucle_s2_v1_conv del: boucle_s2.simps boucle_s2_v1.simps)

lemma poids_set_update:
  "\<exists>v\<in>set etats. 0 < poids v \<Longrightarrow> \<exists>v\<in>set (set_update etats nouveaux). 0 < poids v"
  by (auto simp: set_set_update)

lemma boucle_v1_conv:
  "\<exists>v\<in>set etats. 0 < poids v \<Longrightarrow> boucle_v1 n etats historique = boucle n etats historique"
proof (induction n arbitrary: etats historique)
  case 0
  then show ?case by simp
next
  case (Suc n)
  let ?nv = "boucle_s1 etats etats []"
  from Suc.prems have nv: "?nv \<noteq> []" by (rule boucle_s1_grows)
  from Suc.prems have "\<exists>v\<in>set (set_update etats ?nv). 0 < poids v"
    by (rule poids_set_update)
  from Suc.IH[OF this] nv show ?case
    by (simp add: Let_def boucle_s1_v1_conv)
qed

lemma seeds_poids: "\<exists>v\<in>set [M_THESE, M_ANTITHESE, M_SYNTHESE]. 0 < poids v"
  by (simp add: M_THESE_def poids_def)

lemma generer_hybridations_v1_conv: "generer_hybridations_v1 m = generer_hybridations m"
  by (simp only: generer_hybridations_v1_def generer_hybridations_def boucle_v1_conv[OF seeds_poids])

lemma boucle_grows_length:
  assumes "\<exists>v\<in>set etats. 0 < poids v"
  shows "length (fst (boucle n etats historique)) = length historique + n"
  using assms
proof (induction n arbitrary: etats historique)
  case 0
  then show ?case by simp
next
  case (Suc n)
  let ?nv = "boucle_s1 etats etats []"
  from Suc.prems have nv: "?nv \<noteq> []" by (rule boucle_s1_grows)
  from Suc.prems have "\<exists>v\<in>set (set_update etats ?nv). 0 < poids v"
    by (rule poids_set_update)
  from Suc.IH[OF this, of "historique @ [int (length ?nv)]"] nv show ?case
    by (simp add: Let_def)
qed

lemma boucle_historique_pos:
  "set (fst (boucle n etats historique)) \<subseteq> set historique \<union> {x. 0 < x}"
proof (induction n arbitrary: etats historique)
  case 0
  then show ?case by simp
next
  case (Suc n)
  let ?nv = "boucle_s1 etats etats []"
  show ?case
  proof (cases "?nv = []")
    case True
    then show ?thesis by simp
  next
    case False
    with Suc.IH[of "set_update etats ?nv" "historique @ [int (length ?nv)]"] show ?thesis
      by (auto simp: Let_def)
  qed
qed

lemma boucle_length_le: "length (fst (boucle n etats historique)) \<le> length historique + n"
proof (induction n arbitrary: etats historique)
  case 0
  then show ?case by simp
next
  case (Suc n)
  let ?nv = "boucle_s1 etats etats []"
  show ?case
  proof (cases "?nv = []")
    case True
    then show ?thesis by simp
  next
    case False
    with Suc.IH[of "set_update etats ?nv" "historique @ [int (length ?nv)]"] show ?thesis
      by (simp add: Let_def)
  qed
qed

lemma boucle_distinct: "distinct etats \<Longrightarrow> distinct (snd (boucle n etats historique))"
proof (induction n arbitrary: etats historique)
  case 0
  then show ?case by simp
next
  case (Suc n)
  then show ?case by (simp add: Let_def distinct_set_update)
qed

subsection \<open>What the history records\<close>

lemma boucle_trace:
  "\<exists>k\<le>n.
     fst (boucle n etats historique) =
       historique @ map (\<lambda>i. int (length (nouveaux_iteration ((iteration ^^ i) etats)))) [0..<k] \<and>
     snd (boucle n etats historique) = (iteration ^^ k) etats \<and>
     (\<forall>i<k. nouveaux_iteration ((iteration ^^ i) etats) \<noteq> []) \<and>
     (k < n \<longrightarrow> nouveaux_iteration ((iteration ^^ k) etats) = [])"
proof (induction n arbitrary: etats historique)
  case 0
  then show ?case by simp
next
  case (Suc n)
  let ?nv = "nouveaux_iteration etats"
  let ?g = "\<lambda>e i. int (length (nouveaux_iteration ((iteration ^^ i) e)))"
  show ?case
  proof (cases "?nv = []")
    case True
    then have "boucle (Suc n) etats historique = (historique, etats)"
      by (simp add: nouveaux_iteration_def)
    with True show ?thesis
      by (intro exI[of _ 0]) simp
  next
    case False
    then have step: "boucle (Suc n) etats historique =
        boucle n (iteration etats) (historique @ [int (length ?nv)])"
      by (simp add: nouveaux_iteration_def iteration_def Let_def)
    from Suc.IH[of "iteration etats" "historique @ [int (length ?nv)]"]
    obtain k where k: "k \<le> n"
      and h: "fst (boucle n (iteration etats) (historique @ [int (length ?nv)])) =
          (historique @ [int (length ?nv)]) @ map (?g (iteration etats)) [0..<k]"
      and e: "snd (boucle n (iteration etats) (historique @ [int (length ?nv)])) =
          (iteration ^^ k) (iteration etats)"
      and pos: "\<forall>i<k. nouveaux_iteration ((iteration ^^ i) (iteration etats)) \<noteq> []"
      and stop: "k < n \<longrightarrow> nouveaux_iteration ((iteration ^^ k) (iteration etats)) = []"
      by blast
    have shift: "(iteration ^^ i) (iteration etats) = (iteration ^^ Suc i) etats" for i
      by (simp add: funpow_swap1)
    have "map (?g etats) [0..<Suc k] = ?g etats 0 # map (?g etats \<circ> Suc) [0..<k]"
      by (simp add: upt_conv_Cons map_Suc_upt [symmetric] del: upt_Suc)
    also have "map (?g etats \<circ> Suc) [0..<k] = map (?g (iteration etats)) [0..<k]"
      by (simp add: funpow_swap1)
    finally have m: "map (?g etats) [0..<Suc k] =
        int (length ?nv) # map (?g (iteration etats)) [0..<k]"
      by simp
    have pos': "\<forall>i<Suc k. nouveaux_iteration ((iteration ^^ i) etats) \<noteq> []"
    proof (intro allI impI)
      fix i assume "i < Suc k"
      show "nouveaux_iteration ((iteration ^^ i) etats) \<noteq> []"
      proof (cases i)
        case 0
        with False show ?thesis by simp
      next
        case (Suc j)
        with \<open>i < Suc k\<close> pos shift[of j] show ?thesis by auto
      qed
    qed
    show ?thesis
    proof (intro exI[of _ "Suc k"] conjI)
      show "Suc k \<le> Suc n" using k by simp
      show "fst (boucle (Suc n) etats historique) = historique @ map (?g etats) [0..<Suc k]"
        unfolding step h m by simp
      show "snd (boucle (Suc n) etats historique) = (iteration ^^ Suc k) etats"
        unfolding step e shift ..
      show "\<forall>i<Suc k. nouveaux_iteration ((iteration ^^ i) etats) \<noteq> []"
        by (rule pos')
      show "Suc k < Suc n \<longrightarrow> nouveaux_iteration ((iteration ^^ Suc k) etats) = []"
        using stop shift[of k] by simp
    qed
  qed
qed

subsection \<open>The order of iteration does not matter\<close>

text \<open>
  The new vectors of a pass are the resolved hybrids of all pairs of known vectors that
  are not known yet. Neither this set nor its size, which is what the history records,
  depends on the order in which \<open>list(etats)\<close> enumerates the set.
\<close>

lemma hybridation_commute: "hybridation v1 v2 = hybridation v2 v1"
  by (cases v1, cases v2) (simp add: hybridation_def)

lemma in_set_drop_nth: "i \<le> j \<Longrightarrow> j < length l \<Longrightarrow> l ! j \<in> set (drop i l)"
  by (auto simp: in_set_conv_nth intro!: exI[of _ "j - i"])

lemma set_nouveaux_iteration:
  "set (nouveaux_iteration etats) =
   {resolution (hybridation a b) | a b. a \<in> set etats \<and> b \<in> set etats} - set etats"
proof -
  let ?P = "\<Union>i<length etats. (\<lambda>s2. resolution (hybridation (etats ! i) s2)) ` set (drop i etats)"
  let ?Q = "{resolution (hybridation a b) | a b. a \<in> set etats \<and> b \<in> set etats}"
  have "?P \<subseteq> ?Q"
  proof
    fix v assume "v \<in> ?P"
    then obtain i s2 where "i < length etats" and "s2 \<in> set (drop i etats)"
      and "v = resolution (hybridation (etats ! i) s2)"
      by blast
    then have "etats ! i \<in> set etats" and "s2 \<in> set etats"
      by (auto dest: in_set_dropD)
    with \<open>v = resolution (hybridation (etats ! i) s2)\<close> show "v \<in> ?Q"
      by blast
  qed
  moreover have "?Q \<subseteq> ?P"
  proof
    fix v assume "v \<in> ?Q"
    then obtain i j where i: "i < length etats" and j: "j < length etats"
      and v: "v = resolution (hybridation (etats ! i) (etats ! j))"
      by (auto simp: in_set_conv_nth)
    show "v \<in> ?P"
    proof (cases "i \<le> j")
      case True
      with j have "etats ! j \<in> set (drop i etats)" by (simp add: in_set_drop_nth)
      with i v show ?thesis by blast
    next
      case False
      then have "j \<le> i" by simp
      with i have "etats ! i \<in> set (drop j etats)" by (simp add: in_set_drop_nth)
      moreover have "v = resolution (hybridation (etats ! j) (etats ! i))"
        using v hybridation_commute[of "etats ! i"] by simp
      ultimately show ?thesis using j by blast
    qed
  qed
  ultimately have "?P = ?Q" by blast
  then show ?thesis
    by (simp add: nouveaux_iteration_def set_boucle_s1)
qed

lemma length_nouveaux_iteration:
  "length (nouveaux_iteration etats) =
   card ({resolution (hybridation a b) | a b. a \<in> set etats \<and> b \<in> set etats} - set etats)"
proof -
  have "distinct (nouveaux_iteration etats)"
    by (simp add: nouveaux_iteration_def distinct_boucle_s1)
  then have "length (nouveaux_iteration etats) = card (set (nouveaux_iteration etats))"
    by (simp add: distinct_card)
  then show ?thesis
    by (simp only: set_nouveaux_iteration)
qed

text \<open>
  On a pass that finds nothing v1.2 leaves the history as it is, and v1.1 records a \<open>0\<close>
  before it stops. The state set \<open>{(0, 0, 0)}\<close> shows it. From the three seeds of
  \<open>__init__\<close> no such pass occurs (\<open>boucle_s1_grows\<close>).
\<close>

lemma boucle_v1_sans_croissance:
  "boucle (Suc 1) [(0, 0, 0)] [7] = ([7], [(0, 0, 0)]) \<and>
   boucle_v1 (Suc 1) [(0, 0, 0)] [7] = ([7, 0], [(0, 0, 0)])"
  by code_simp

lemma boucle_v1_passe_sans_croissance:
  "boucle_s1 etats etats [] = [] \<Longrightarrow>
   boucle_v1 (Suc n) etats history = (history @ [0], etats)"
  by (simp add: boucle_s1_v1_conv Let_def)

subsection \<open>The instance built by the constructor\<close>

lemma etats_de_base_init: "etats_de_base moteur_init = [M_THESE, M_ANTITHESE, M_SYNTHESE]"
  by (simp add: etats_de_base_def moteur_init_def set_add_def
      M_THESE_def M_ANTITHESE_def M_SYNTHESE_def)

lemma generer_hybridations_self_init:
  "generer_hybridations_self moteur_init m = generer_hybridations m"
  "generer_hybridations_v1_self moteur_init m = generer_hybridations_v1 m"
  by (simp_all add: generer_hybridations_self_def generer_hybridations_v1_self_def
      generer_hybridations_def generer_hybridations_v1_def etats_de_base_init)

subsection \<open>The states of the closure\<close>

lemma generer_hybridations_etats:
  "set [M_THESE, M_ANTITHESE, M_SYNTHESE] \<subseteq> set (snd (generer_hybridations n)) \<and>
   set (snd (generer_hybridations n)) \<subseteq> set [M_THESE, M_ANTITHESE, M_SYNTHESE] \<union> range resolution"
  unfolding generer_hybridations_def
  by (rule boucle_etats[of "nat n" _ "[]" "fst (boucle (nat n) [M_THESE, M_ANTITHESE, M_SYNTHESE] [])"])
     simp

lemma seeds_equilibre:
  "\<not> est_equilibre M_THESE" "\<not> est_equilibre M_ANTITHESE" "est_equilibre M_SYNTHESE"
  by (simp_all add: est_equilibre_def verifier_axiome_def M_THESE_def M_ANTITHESE_def M_SYNTHESE_def)

text \<open>
  From the three seeds every pass finds a new vector, so the loop never leaves by
  \<open>break\<close> and the history has one entry for each iteration of the budget.
\<close>

lemma generer_hybridations_length: "length (fst (generer_hybridations m)) = nat m"
  using boucle_grows_length[OF seeds_poids, of "nat m" "[]"] by (simp add: generer_hybridations_def)

lemma generer_hybridations_distinct: "distinct (snd (generer_hybridations m))"
  unfolding generer_hybridations_def
  by (rule boucle_distinct) (simp add: M_THESE_def M_ANTITHESE_def M_SYNTHESE_def)

subsection \<open>The cube\<close>

lemma range3: "map int [0..<3] = [0, 1, 2]"
  by (simp add: numeral_3_eq_3 upt_rec)

lemma generer_cube_27_liste:
  "generer_cube_27 =
     [(0, 0, 0), (0, 0, 1), (0, 0, 2), (0, 1, 0), (0, 1, 1), (0, 1, 2), (0, 2, 0), (0, 2, 1),
      (0, 2, 2), (1, 0, 0), (1, 0, 1), (1, 0, 2), (1, 1, 0), (1, 1, 1), (1, 1, 2), (1, 2, 0),
      (1, 2, 1), (1, 2, 2), (2, 0, 0), (2, 0, 1), (2, 0, 2), (2, 1, 0), (2, 1, 1), (2, 1, 2),
      (2, 2, 0), (2, 2, 1), (2, 2, 2)]"
  by (simp add: generer_cube_27_def range3)

section \<open>Properties of the closure\<close>

text \<open>
  C1. The returned state set contains the three seeds, and the claim, like the comment
  \<open>Etats de base (deja equilibres)\<close> and the docstring of the function, has every member
  of it balanced. The code returns the thesis seed \<open>(1, 0, 0)\<close> and the antithesis seed
  \<open>(0, 1, 0)\<close> as it received them, and neither passes the balance check: with a budget of
  one iteration (as with any other) both are members of the result, and \<open>0 \<ge> 1 + 0\<close> is
  false.
\<close>

theorem generer_hybridations_seeds_non_equilibres:
  "M_THESE \<in> set (snd (generer_hybridations 1)) \<and> \<not> est_equilibre M_THESE \<and>
   M_ANTITHESE \<in> set (snd (generer_hybridations 1)) \<and> \<not> est_equilibre M_ANTITHESE"
  by code_simp

text \<open>
  The history of v1.2. When a pass of the loop finds no new vector, the loop ends and the
  history is returned as it was, with no entry for that pass. From any state set and for
  any number \<open>n\<close> of remaining iterations there is a number \<open>k \<le> n\<close> of passes that
  found new vectors: the loop appends exactly \<open>k\<close> entries, the \<open>i\<close>-th being the number
  of new vectors of pass \<open>i\<close>; each of these passes found some; and if \<open>k < n\<close> then pass
  \<open>k\<close> found none. On the instance of the constructor the length of the history is at
  most the budget and no entry is zero, and v1.1 returns there what v1.2 returns.
\<close>

lemma generer_hybridations_historique:
  "(nouveaux_iteration etats = [] \<longrightarrow> boucle (Suc n) etats historique = (historique, etats)) \<and>
   (\<exists>k\<le>n.
      fst (boucle n etats historique) =
        historique @ map (\<lambda>i. int (length (nouveaux_iteration ((iteration ^^ i) etats)))) [0..<k] \<and>
      (\<forall>i<k. nouveaux_iteration ((iteration ^^ i) etats) \<noteq> []) \<and>
      (k < n \<longrightarrow> nouveaux_iteration ((iteration ^^ k) etats) = [])) \<and>
   length (fst (generer_hybridations m)) \<le> nat m \<and>
   (\<forall>x\<in>set (fst (generer_hybridations m)). x \<noteq> 0) \<and>
   generer_hybridations_v1 m = generer_hybridations m"
proof (intro conjI)
  show "nouveaux_iteration etats = [] \<longrightarrow> boucle (Suc n) etats historique = (historique, etats)"
    by (simp add: nouveaux_iteration_def)
  show "\<exists>k\<le>n.
      fst (boucle n etats historique) =
        historique @ map (\<lambda>i. int (length (nouveaux_iteration ((iteration ^^ i) etats)))) [0..<k] \<and>
      (\<forall>i<k. nouveaux_iteration ((iteration ^^ i) etats) \<noteq> []) \<and>
      (k < n \<longrightarrow> nouveaux_iteration ((iteration ^^ k) etats) = [])"
    using boucle_trace[of n etats historique] by blast
  show "length (fst (generer_hybridations m)) \<le> nat m"
    using boucle_length_le[of "nat m" _ "[]"] by (simp add: generer_hybridations_def)
  show "\<forall>x\<in>set (fst (generer_hybridations m)). x \<noteq> 0"
    using boucle_historique_pos[of "nat m" _ "[]"] by (auto simp: generer_hybridations_def)
  show "generer_hybridations_v1 m = generer_hybridations m"
    by (rule generer_hybridations_v1_conv)
qed

text \<open>
  C2. A pass that finds no new vector ends the loop and leaves no entry in the history,
  so that no entry of the history is zero. The loop of v1.2 does so. The loop of v1.1
  appends the count first and tests it after: on an instance whose three seeds are
  \<open>(0, 0, 0)\<close> the only hybrid is \<open>(0, 0, 0)\<close>, the first pass finds nothing, and v1.1
  returns the history \<open>[0]\<close> where v1.2 returns the empty history.
\<close>

theorem generer_hybridations_v1_historique_zero:
  "generer_hybridations_v1_self
     \<lparr> self_M_THESE = (0, 0, 0), self_M_ANTITHESE = (0, 0, 0), self_M_SYNTHESE = (0, 0, 0) \<rparr> 2 =
     ([0], [(0, 0, 0)]) \<and>
   generer_hybridations_self
     \<lparr> self_M_THESE = (0, 0, 0), self_M_ANTITHESE = (0, 0, 0), self_M_SYNTHESE = (0, 0, 0) \<rparr> 2 =
     ([], [(0, 0, 0)])"
  by code_simp

text \<open>
  C8 as stated: a negative iteration budget is rejected with an invalid-argument failure
  and the call does not return a normal result. The code has no such check:
  \<open>range(-1)\<close> is empty, the loop body never runs, and the call returns the empty history
  and the three seeds, in v1.2 and in v1.1.
\<close>

theorem generer_hybridations_negative_counterexample:
  "generer_hybridations (- 1) = ([], [M_THESE, M_ANTITHESE, M_SYNTHESE]) \<and>
   generer_hybridations_v1 (- 1) = ([], [M_THESE, M_ANTITHESE, M_SYNTHESE])"
  by (simp add: generer_hybridations_def generer_hybridations_v1_def)

text \<open>
  C8, amended. A call with a negative iteration budget completes normally and returns
  what a budget of zero returns: the empty history and the three seeds.
\<close>

theorem generer_hybridations_negative:
  "max_iterations < 0 \<Longrightarrow>
   generer_hybridations max_iterations = ([], [M_THESE, M_ANTITHESE, M_SYNTHESE]) \<and>
   generer_hybridations_v1 max_iterations = ([], [M_THESE, M_ANTITHESE, M_SYNTHESE]) \<and>
   generer_hybridations max_iterations = generer_hybridations 0"
  by (simp add: generer_hybridations_def generer_hybridations_v1_def)

theorem generer_hybridations_negative_witness:
  "(- 5 :: int) < 0 \<and>
   generer_hybridations (- 5) = ([], [M_THESE, M_ANTITHESE, M_SYNTHESE]) \<and>
   generer_hybridations_v1 (- 5) = ([], [M_THESE, M_ANTITHESE, M_SYNTHESE])"
  using generer_hybridations_negative[of "- 5"] by simp

text \<open>
  C10. Every member of the returned state set is one of the three seeds or is balanced;
  the thesis seed and the antithesis seed, which are not balanced, are always members.
  v1.1 returns the same set.
\<close>

theorem generer_hybridations_seeds_or_equilibre:
  "(\<forall>v\<in>set (snd (generer_hybridations n)).
      v \<in> {M_THESE, M_ANTITHESE, M_SYNTHESE} \<or> est_equilibre v) \<and>
   M_THESE \<in> set (snd (generer_hybridations n)) \<and>
   M_ANTITHESE \<in> set (snd (generer_hybridations n)) \<and>
   \<not> est_equilibre M_THESE \<and> \<not> est_equilibre M_ANTITHESE \<and>
   generer_hybridations_v1 n = generer_hybridations n"
proof -
  have "v \<in> {M_THESE, M_ANTITHESE, M_SYNTHESE} \<or> est_equilibre v"
    if "v \<in> set (snd (generer_hybridations n))" for v
  proof -
    from that generer_hybridations_etats[of n]
    have "v \<in> set [M_THESE, M_ANTITHESE, M_SYNTHESE] \<or> v \<in> range resolution"
      by blast
    then show ?thesis
      using range_resolution_equilibre[of v] by auto
  qed
  moreover have "M_THESE \<in> set (snd (generer_hybridations n))"
    "M_ANTITHESE \<in> set (snd (generer_hybridations n))"
    using generer_hybridations_etats[of n] by auto
  ultimately show ?thesis
    using seeds_equilibre(1,2) generer_hybridations_v1_conv[of n] by blast
qed

text \<open>
  An instance: with a budget of one iteration \<open>(2, 0, 2)\<close> is a member, it is no seed,
  and it is balanced.
\<close>

theorem generer_hybridations_seeds_or_equilibre_witness:
  "(2, 0, 2) \<in> set (snd (generer_hybridations 1)) \<and>
   (2, 0, 2) \<notin> {M_THESE, M_ANTITHESE, M_SYNTHESE} \<and> est_equilibre (2, 0, 2) \<and>
   M_THESE \<in> set (snd (generer_hybridations 1)) \<and>
   M_ANTITHESE \<in> set (snd (generer_hybridations 1)) \<and>
   generer_hybridations_v1 1 = generer_hybridations 1"
proof -
  have m: "(2, 0, 2) \<in> set (snd (generer_hybridations 1))"
    by code_simp
  have ne: "(2, 0, 2) \<notin> {M_THESE, M_ANTITHESE, M_SYNTHESE}"
    by (simp add: M_THESE_def M_ANTITHESE_def M_SYNTHESE_def)
  from generer_hybridations_seeds_or_equilibre[of 1] m ne show ?thesis
    by blast
qed

section \<open>Properties of the cube analysis\<close>

text \<open>
  C3. The report of \<open>analyser_cube_27\<close> has 27 points, 729 ordered pairs and 243 valid
  anchors; 243 is the number of ordered pairs \<open>(p1, p2)\<close> of cube points with
  \<open>p1[1] = p2[0]\<close>; and the reported percentage is \<open>33.33\<close>.
\<close>

theorem analyser_cube_27_rapport:
  "nombre_points analyser_cube_27 = 27 \<and>
   total_paires analyser_cube_27 = 729 \<and>
   ancrages_valides analyser_cube_27 = 243 \<and>
   ancrages_valides analyser_cube_27 =
     int (length (filter (\<lambda>(p1, p2). fst (snd p1) = fst p2)
                    (List.product generer_cube_27 generer_cube_27))) \<and>
   ratio_percentage analyser_cube_27 = 3333 / 100"
proof -
  have n: "length generer_cube_27 = 27"
    by (simp add: generer_cube_27_liste)
  have a: "sum_list [1. p1 \<leftarrow> generer_cube_27, p2 \<leftarrow> generer_cube_27, ancrage_valide p1 p2] = (243::int)"
    by (simp add: generer_cube_27_liste ancrage_valide_def)
  have f: "length (filter (\<lambda>(p1, p2). fst (snd p1) = fst p2)
                    (List.product generer_cube_27 generer_cube_27)) = 243"
    by code_simp
  have r: "arrondi2 (100 / 3) = 3333 / 100"
    by (simp add: arrondi2_def round_def)
  show ?thesis
    by (simp add: analyser_cube_27_def Let_def n a f r)
qed

end
